theory Spec2Isabelle
  imports Main
begin

section \<open>JavaScript values\<close>

text \<open>
  The tag table is JSON data (\<^verbatim>\<open>require('../i18n/tags.json')\<close> or \<^verbatim>\<open>resp.json()\<close>),
  and the query functions accept any value. \<open>JObj\<close> lists the own properties of a plain
  object in creation order (for parsed JSON: the order of the text); a JavaScript object
  holds every key once, which \<open>wf_obj\<close> states. Strings are sequences of code units in
  the range U+0000..U+00FF. Numbers are only inspected by \<^verbatim>\<open>typeof\<close> and for
  truthiness, never computed with. \<open>JFunction\<close> and \<open>JProto\<close> are the values a property
  read can reach through \<^verbatim>\<open>Object.prototype\<close> (a built-in method, and the
  prototype object itself); JSON data never contains them.
\<close>

datatype jsval =
    JUndefined
  | JNull
  | JBool bool
  | JNum int
  | JStr string
  | JArr "jsval list"
  | JObj "(string \<times> jsval) list"
  | JFunction
  | JProto

type_synonym jsobj = "(string \<times> jsval) list"

datatype js_error = TypeError

definition wf_obj :: "jsobj \<Rightarrow> bool" where
  "wf_obj kvs = distinct (map fst kvs)"

fun typeof :: "jsval \<Rightarrow> string" where
  "typeof JUndefined = ''undefined''"
| "typeof JNull = ''object''"
| "typeof (JBool b) = ''boolean''"
| "typeof (JNum n) = ''number''"
| "typeof (JStr s) = ''string''"
| "typeof (JArr xs) = ''object''"
| "typeof (JObj kvs) = ''object''"
| "typeof JFunction = ''function''"
| "typeof JProto = ''object''"

fun isArray :: "jsval \<Rightarrow> bool" where
  "isArray (JArr xs) = True"
| "isArray v = False"

text \<open>Truthiness, as tested by \<^verbatim>\<open>if (x)\<close>, \<^verbatim>\<open>!x\<close>, \<^verbatim>\<open>x && y\<close> and \<^verbatim>\<open>x || y\<close>.\<close>

fun truthy :: "jsval \<Rightarrow> bool" where
  "truthy JUndefined = False"
| "truthy JNull = False"
| "truthy (JBool b) = b"
| "truthy (JNum n) = (n \<noteq> 0)"
| "truthy (JStr s) = (s \<noteq> [])"
| "truthy v = True"

subsection \<open>Own property keys\<close>

text \<open>
  \<^verbatim>\<open>Object.keys\<close> lists the own enumerable string keys: first the keys that are array
  indices (canonical decimal numerals up to \<open>2^32 - 2\<close>) in ascending numeric order, then
  every other key in creation order.
\<close>

definition is_digit :: "char \<Rightarrow> bool" where
  "is_digit c = (48 \<le> (of_char c :: nat) \<and> (of_char c :: nat) \<le> 57)"

definition index_value :: "string \<Rightarrow> nat" where
  "index_value s = foldl (\<lambda>n c. 10 * n + ((of_char c :: nat) - 48)) 0 s"

definition is_array_index :: "string \<Rightarrow> bool" where
  "is_array_index s =
     (s \<noteq> [] \<and> list_all is_digit s \<and> (s = ''0'' \<or> hd s \<noteq> CHR ''0'')
      \<and> index_value s \<le> 4294967294)"

definition object_keys :: "jsobj \<Rightarrow> string list" where
  "object_keys kvs =
     (let ks = map fst kvs
      in sort_key index_value (filter is_array_index ks)
         @ filter (\<lambda>k. \<not> is_array_index k) ks)"

subsection \<open>Property reads\<close>

text \<open>
  A read \<^verbatim>\<open>o[k]\<close> on a plain object finds an own property first and then follows the
  prototype chain to \<^verbatim>\<open>Object.prototype\<close>, whose members are built-in methods and
  the accessor \<^verbatim>\<open>__proto__\<close>.
\<close>

definition object_prototype_methods :: "string list" where
  "object_prototype_methods =
     [''constructor'', ''hasOwnProperty'', ''isPrototypeOf'', ''propertyIsEnumerable'',
      ''toLocaleString'', ''toString'', ''valueOf'', ''__defineGetter__'',
      ''__defineSetter__'', ''__lookupGetter__'', ''__lookupSetter__'']"

definition proto_get :: "string \<Rightarrow> jsval" where
  "proto_get k =
     (if k = ''__proto__'' then JProto
      else if k \<in> set object_prototype_methods then JFunction
      else JUndefined)"

definition obj_get :: "jsobj \<Rightarrow> string \<Rightarrow> jsval" where
  "obj_get kvs k = (case map_of kvs k of Some v \<Rightarrow> v | None \<Rightarrow> proto_get k)"

text \<open>
  A read \<^verbatim>\<open>v[k]\<close> on any value. It throws a TypeError on \<^verbatim>\<open>undefined\<close> and
  \<^verbatim>\<open>null\<close>. On primitives, arrays and functions the module only ever reads the names
  \<^verbatim>\<open>en\<close>, \<^verbatim>\<open>zh\<close> and \<^verbatim>\<open>aliases\<close>, which none of them defines.
\<close>

fun get_prop :: "jsval \<Rightarrow> string \<Rightarrow> js_error + jsval" where
  "get_prop JUndefined k = Inl TypeError"
| "get_prop JNull k = Inl TypeError"
| "get_prop (JObj kvs) k = Inr (obj_get kvs k)"
| "get_prop JProto k =
     Inr (if k = ''__proto__'' then JNull
          else if k \<in> set object_prototype_methods then JFunction
          else JUndefined)"
| "get_prop v k = Inr JUndefined"

section \<open>Strings: trim and toLowerCase\<close>

text \<open>
  \<^verbatim>\<open>String.prototype.trim\<close> removes white space and line terminators at both ends; in
  the range U+0000..U+00FF these are TAB, LF, VT, FF, CR, SPACE and NBSP.
  \<^verbatim>\<open>String.prototype.toLowerCase\<close> maps A..Z and the capital letters U+00C0..U+00DE
  (without the multiplication sign U+00D7) to the code unit 32 above.
\<close>

definition is_white_space :: "char \<Rightarrow> bool" where
  "is_white_space c = ((of_char c :: nat) \<in> {9, 10, 11, 12, 13, 32, 160})"

definition trim :: "string \<Rightarrow> string" where
  "trim s = rev (dropWhile is_white_space (rev (dropWhile is_white_space s)))"

definition lower_char :: "char \<Rightarrow> char" where
  "lower_char c =
     (let n = (of_char c :: nat)
      in if (65 \<le> n \<and> n \<le> 90) \<or> (192 \<le> n \<and> n \<le> 222 \<and> n \<noteq> 215)
         then char_of (n + 32) else c)"

definition toLowerCase :: "string \<Rightarrow> string" where
  "toLowerCase s = map lower_char s"

definition foldTagKey :: "string \<Rightarrow> string" where
  "foldTagKey tag = toLowerCase (trim tag)"

section \<open>Module state\<close>

text \<open>
  The four module-level variables. \<open>None\<close> is \<^verbatim>\<open>null\<close>. The two indexes are
  \<^verbatim>\<open>Map\<close> objects, used only through \<^verbatim>\<open>get\<close>, \<^verbatim>\<open>has\<close> and \<^verbatim>\<open>set\<close>.
  \<open>browserLoadPromise\<close> records whether the promise of the one fetch has been stored.
\<close>

record state =
  tagTable :: "jsobj option"
  aliasToCanonical :: "(string \<rightharpoonup> string) option"
  foldedCanonicalToCanonical :: "(string \<rightharpoonup> string) option"
  browserLoadPromise :: bool

definition init_state :: state where
  "init_state =
     \<lparr>tagTable = None, aliasToCanonical = None, foldedCanonicalToCanonical = None,
      browserLoadPromise = False\<rparr>"

text \<open>
  What the module sees of its host: whether \<^verbatim>\<open>module.exports\<close> exists (Node), what
  \<^verbatim>\<open>require('../i18n/tags.json')\<close> gives (\<open>None\<close> when it throws), and whether
  \<^verbatim>\<open>fetch\<close> is a function.
\<close>

record env =
  module_exports :: bool
  require_tags :: "jsval option"
  fetch_is_function :: bool

definition isPlainObject :: "jsval \<Rightarrow> bool" where
  "isPlainObject v = (v \<noteq> JNull \<and> typeof v = ''object'' \<and> \<not> isArray v)"

section \<open>Index builder\<close>

text \<open>
  \<^verbatim>\<open>entry && Array.isArray(entry.aliases) ? entry.aliases : []\<close>
\<close>

definition entry_aliases :: "jsval \<Rightarrow> js_error + jsval list" where
  "entry_aliases entry =
     (if truthy entry
      then (case get_prop entry ''aliases'' of
              Inl e \<Rightarrow> Inl e
            | Inr a \<Rightarrow> Inr (case a of JArr xs \<Rightarrow> xs | _ \<Rightarrow> []))
      else Inr [])"

text \<open>The inner loop \<^verbatim>\<open>for (const alias of aliases)\<close>, on the alias map.\<close>

fun aliases_loop :: "string \<Rightarrow> jsval list \<Rightarrow> (string \<rightharpoonup> string) \<Rightarrow> (string \<rightharpoonup> string)" where
  "aliases_loop canonical [] aliasMap = aliasMap"
| "aliases_loop canonical (JStr a # rest) aliasMap =
     (let key = foldTagKey a
      in if length key = 0 then aliases_loop canonical rest aliasMap
         else if aliasMap key = None
              then aliases_loop canonical rest (aliasMap(key \<mapsto> canonical))
              else aliases_loop canonical rest aliasMap)"
| "aliases_loop canonical (v # rest) aliasMap = aliases_loop canonical rest aliasMap"

text \<open>The outer loop \<^verbatim>\<open>for (const canonical of Object.keys(table))\<close>, on both maps.\<close>

fun keys_loop ::
  "jsobj \<Rightarrow> string list \<Rightarrow> (string \<rightharpoonup> string) \<times> (string \<rightharpoonup> string)
   \<Rightarrow> js_error + (string \<rightharpoonup> string) \<times> (string \<rightharpoonup> string)" where
  "keys_loop table [] (aliasMap, canonicalMap) = Inr (aliasMap, canonicalMap)"
| "keys_loop table (canonical # rest) (aliasMap, canonicalMap) =
     (let canonicalMap' = canonicalMap(foldTagKey canonical \<mapsto> canonical);
          entry = obj_get table canonical
      in case entry_aliases entry of
           Inl e \<Rightarrow> Inl e
         | Inr aliases \<Rightarrow>
             keys_loop table rest (aliases_loop canonical aliases aliasMap, canonicalMap'))"

definition buildIndexes :: "jsobj \<Rightarrow> state \<Rightarrow> js_error + state" where
  "buildIndexes table s =
     (case keys_loop table (object_keys table) (Map.empty, Map.empty) of
        Inl e \<Rightarrow> Inl e
      | Inr (aliasMap, canonicalMap) \<Rightarrow>
          Inr (s\<lparr>aliasToCanonical := Some aliasMap,
                 foldedCanonicalToCanonical := Some canonicalMap\<rparr>))"

section \<open>Table loader\<close>

text \<open>
  The shape check of \<open>setTagTable\<close>: the loop over the keys returns from the function
  at the first entry that fails (\<open>Inr False\<close>), and runs through otherwise (\<open>Inr True\<close>).
\<close>

fun shape_loop :: "jsobj \<Rightarrow> string list \<Rightarrow> js_error + bool" where
  "shape_loop table [] = Inr True"
| "shape_loop table (key # keys) =
     (let entry = obj_get table key
      in if \<not> isPlainObject entry then Inr False
         else case get_prop entry ''en'' of
                Inl e \<Rightarrow> Inl e
              | Inr en \<Rightarrow>
                  if typeof en \<noteq> ''string'' then Inr False
                  else case get_prop entry ''zh'' of
                         Inl e \<Rightarrow> Inl e
                       | Inr zh \<Rightarrow>
                           if typeof zh \<noteq> ''string'' then Inr False
                           else shape_loop table keys)"

text \<open>
  \<open>isPlainObject\<close> lets a \<open>JObj\<close> through, and \<^verbatim>\<open>Object.prototype\<close> itself, which
  has no enumerable key.
\<close>

definition setTagTable :: "jsval \<Rightarrow> state \<Rightarrow> js_error + state" where
  "setTagTable table s =
     (if \<not> isPlainObject table then Inr s
      else case table of
             JObj kvs \<Rightarrow>
               (let keys = object_keys kvs
                in if length keys = 0 then Inr s
                   else case shape_loop kvs keys of
                          Inl e \<Rightarrow> Inl e
                        | Inr False \<Rightarrow> Inr s
                        | Inr True \<Rightarrow> buildIndexes kvs (s\<lparr>tagTable := Some kvs\<rparr>))
           | _ \<Rightarrow> Inr s)"

text \<open>
  \<open>maybeLoadTagTable\<close>. In Node the table is required and installed inside
  \<^verbatim>\<open>try { ... } catch { }\<close>; an exception leaves the state as it was when it was
  thrown, which for \<open>setTagTable\<close> is the state before the call (it assigns only after
  its checks). In the browser the first call stores the promise of the fetch.
\<close>

definition maybeLoadTagTable :: "env \<Rightarrow> state \<Rightarrow> state" where
  "maybeLoadTagTable ev s =
     (if tagTable s \<noteq> None then s
      else if module_exports ev
           then (case require_tags ev of
                   None \<Rightarrow> s
                 | Some table \<Rightarrow> (case setTagTable table s of Inl e \<Rightarrow> s | Inr s' \<Rightarrow> s'))
      else if browserLoadPromise s then s
      else if \<not> fetch_is_function ev then s
      else s\<lparr>browserLoadPromise := True\<rparr>)"

text \<open>
  The continuation of the fetch: \<open>None\<close> when the request was rejected, the response was
  not \<^verbatim>\<open>ok\<close> or its body was not JSON; otherwise the parsed data, installed when it is
  truthy. \<^verbatim>\<open>.catch\<close> swallows an exception.
\<close>

definition fetch_settled :: "jsval option \<Rightarrow> state \<Rightarrow> state" where
  "fetch_settled data s =
     (case data of
        None \<Rightarrow> s
      | Some d \<Rightarrow>
          if truthy d then (case setTagTable d s of Inl e \<Rightarrow> s | Inr s' \<Rightarrow> s') else s)"

section \<open>Query functions\<close>

text \<open>\<^verbatim>\<open>a || b\<close> where \<open>a\<close> is the result of \<^verbatim>\<open>Map.prototype.get\<close> on a map of strings.\<close>

definition or_else :: "string option \<Rightarrow> string \<Rightarrow> string" where
  "or_else a b = (case a of None \<Rightarrow> b | Some v \<Rightarrow> if v \<noteq> [] then v else b)"

definition normalizeTag :: "env \<Rightarrow> state \<Rightarrow> jsval \<Rightarrow> string \<times> state" where
  "normalizeTag ev s tag =
     (case tag of
        JStr t \<Rightarrow>
          if length t = 0 then ([], s)
          else
            (let s1 = maybeLoadTagTable ev s
             in case aliasToCanonical s1 of
                  None \<Rightarrow> (t, s1)
                | Some aliasMap \<Rightarrow>
                    (case foldedCanonicalToCanonical s1 of
                       None \<Rightarrow> (t, s1)
                     | Some canonicalMap \<Rightarrow>
                         (let folded = foldTagKey t
                          in if length folded = 0 then ([], s1)
                             else (or_else (aliasMap folded)
                                     (or_else (canonicalMap folded) t), s1))))
      | _ \<Rightarrow> ([], s))"

text \<open>\<^verbatim>\<open>lang === 'zh' ? 'zh' : 'en'\<close>, after the default \<^verbatim>\<open>lang = 'en'\<close> of the parameter.\<close>

definition normalizedLang :: "jsval \<Rightarrow> string" where
  "normalizedLang lang =
     (let lang' = (if lang = JUndefined then JStr ''en'' else lang)
      in if lang' = JStr ''zh'' then ''zh'' else ''en'')"

definition translateTag :: "env \<Rightarrow> state \<Rightarrow> jsval \<Rightarrow> jsval \<Rightarrow> (js_error + string) \<times> state" where
  "translateTag ev s tag lang =
     (case tag of
        JStr t \<Rightarrow>
          if length t = 0 then (Inr [], s)
          else
            (let s1 = maybeLoadTagTable ev s
             in case tagTable s1 of
                  None \<Rightarrow> (Inr t, s1)
                | Some table \<Rightarrow>
                    (let (canonical, s2) = normalizeTag ev s1 tag;
                         entry = (if canonical \<noteq> [] then obj_get table canonical
                                  else JStr canonical)
                     in if \<not> truthy entry then (Inr t, s2)
                        else case get_prop entry (normalizedLang lang) of
                               Inl e \<Rightarrow> (Inl e, s2)
                             | Inr translated \<Rightarrow>
                                 (case translated of
                                    JStr x \<Rightarrow> (Inr (if length x > 0 then x else t), s2)
                                  | _ \<Rightarrow> (Inr t, s2))))
      | _ \<Rightarrow> (Inr [], s))"

text \<open>
  The callback of \<^verbatim>\<open>Object.keys(tagTable).map\<close>, key by key:
  \<^verbatim>\<open>{ key, label: tagTable[key][normalizedLang] }\<close>, as a pair.
\<close>

fun tags_map :: "jsobj \<Rightarrow> string \<Rightarrow> string list \<Rightarrow> js_error + (string \<times> jsval) list" where
  "tags_map table l [] = Inr []"
| "tags_map table l (key # keys) =
     (case get_prop (obj_get table key) l of
        Inl e \<Rightarrow> Inl e
      | Inr label \<Rightarrow>
          (case tags_map table l keys of
             Inl e \<Rightarrow> Inl e
           | Inr rest \<Rightarrow> Inr ((key, label) # rest)))"

definition getAllTags :: "env \<Rightarrow> state \<Rightarrow> jsval \<Rightarrow> (js_error + (string \<times> jsval) list) \<times> state" where
  "getAllTags ev s lang =
     (let s1 = maybeLoadTagTable ev s
      in case tagTable s1 of
           None \<Rightarrow> (Inr [], s1)
         | Some table \<Rightarrow> (tags_map table (normalizedLang lang) (object_keys table), s1))"

section \<open>The documented behaviour, for comparison\<close>

subsection \<open>Indexes\<close>

text \<open>
  The index builder as its contract words it. The aliases of an entry, when \<^verbatim>\<open>aliases\<close>
  is present and is a sequence; of these the strings; of these the ones whose fold is
  not empty, each paired with the canonical key. The alias index sends a folded alias
  to the canonical key of its first occurrence in iteration order; the fold index
  sends a folded key to the last canonical key that folds to it.
\<close>

fun strings_of :: "jsval list \<Rightarrow> string list" where
  "strings_of [] = []"
| "strings_of (JStr a # vs) = a # strings_of vs"
| "strings_of (v # vs) = strings_of vs"

definition entry_alias_list :: "jsval \<Rightarrow> jsval list" where
  "entry_alias_list entry =
     (case entry of
        JObj es \<Rightarrow> (case obj_get es ''aliases'' of JArr xs \<Rightarrow> xs | _ \<Rightarrow> [])
      | _ \<Rightarrow> [])"

definition key_candidates :: "string \<Rightarrow> jsval list \<Rightarrow> (string \<times> string) list" where
  "key_candidates canonical vs =
     map (\<lambda>f. (f, canonical)) (filter (\<lambda>f. f \<noteq> []) (map foldTagKey (strings_of vs)))"

definition alias_candidates :: "jsobj \<Rightarrow> string list \<Rightarrow> (string \<times> string) list" where
  "alias_candidates table ks =
     concat (map (\<lambda>c. key_candidates c (entry_alias_list (obj_get table c))) ks)"

definition alias_index :: "jsobj \<Rightarrow> string \<rightharpoonup> string" where
  "alias_index table f =
     map_option snd (find (\<lambda>p. fst p = f) (alias_candidates table (object_keys table)))"

definition canonical_index :: "jsobj \<Rightarrow> string \<rightharpoonup> string" where
  "canonical_index table f = find (\<lambda>c. foldTagKey c = f) (rev (object_keys table))"

subsection \<open>Shape check\<close>

text \<open>
  An entry passes when it is a plain object whose \<^verbatim>\<open>en\<close> and \<^verbatim>\<open>zh\<close> are strings; a
  table passes when it is a plain object with at least one key and every entry passes.
\<close>

fun is_string :: "jsval \<Rightarrow> bool" where
  "is_string (JStr x) = True"
| "is_string v = False"

definition entry_ok :: "jsval \<Rightarrow> bool" where
  "entry_ok entry =
     (case entry of
        JObj es \<Rightarrow> is_string (obj_get es ''en'') \<and> is_string (obj_get es ''zh'')
      | _ \<Rightarrow> False)"

definition table_ok :: "jsval \<Rightarrow> bool" where
  "table_ok table =
     (case table of
        JObj kvs \<Rightarrow> kvs \<noteq> [] \<and> list_all (\<lambda>k. entry_ok (obj_get kvs k)) (map fst kvs)
      | _ \<Rightarrow> False)"

definition install :: "jsobj \<Rightarrow> state \<Rightarrow> state" where
  "install kvs s =
     s\<lparr>tagTable := Some kvs,
       aliasToCanonical := Some (alias_index kvs),
       foldedCanonicalToCanonical := Some (canonical_index kvs)\<rparr>"

subsection \<open>States\<close>

text \<open>
  A state holds a loaded table when the table passed the shape check and both indexes
  are the ones built from it. Before a load succeeds all three variables are null.
\<close>

definition loaded :: "state \<Rightarrow> jsobj \<Rightarrow> bool" where
  "loaded s kvs =
     (tagTable s = Some kvs \<and> aliasToCanonical s = Some (alias_index kvs)
      \<and> foldedCanonicalToCanonical s = Some (canonical_index kvs) \<and> table_ok (JObj kvs))"

definition unloaded :: "state \<Rightarrow> bool" where
  "unloaded s =
     (tagTable s = None \<and> aliasToCanonical s = None \<and> foldedCanonicalToCanonical s = None)"

definition state_inv :: "state \<Rightarrow> bool" where
  "state_inv s = (case tagTable s of None \<Rightarrow> unloaded s | Some kvs \<Rightarrow> loaded s kvs)"

subsection \<open>Queries\<close>

text \<open>
  The label field of an entry, and what it means for a string to match no canonical key
  and no alias of a table: matching is by fold, as in both indexes.
\<close>

definition entry_field :: "jsval \<Rightarrow> string \<Rightarrow> jsval" where
  "entry_field entry l = (case entry of JObj es \<Rightarrow> obj_get es l | _ \<Rightarrow> JUndefined)"

text \<open>A match in an index that \<^verbatim>\<open>||\<close> lets through: a value that is not the empty string.\<close>

definition nonempty_match :: "(string \<rightharpoonup> string) \<Rightarrow> string \<Rightarrow> string option" where
  "nonempty_match m f = (case m f of None \<Rightarrow> None | Some v \<Rightarrow> if v = [] then None else Some v)"

definition unmatched :: "jsobj \<Rightarrow> string \<Rightarrow> bool" where
  "unmatched table x =
     (list_all (\<lambda>c. foldTagKey c \<noteq> foldTagKey x) (object_keys table)
      \<and> list_all
          (\<lambda>c. list_all (\<lambda>a. foldTagKey a \<noteq> foldTagKey x)
                 (strings_of (entry_alias_list (obj_get table c))))
          (object_keys table))"

section \<open>The life of the module\<close>

text \<open>
  The last statement of the module calls \<open>maybeLoadTagTable\<close> once, on the initial
  state. After that the host calls the three exported functions in any order, and, in
  the browser, the fetch settles at most once, after its promise was stored. \<open>settled\<close>
  records that it did; an event that cannot happen (a second settlement, or one with no
  fetch under way) leaves the configuration alone.
\<close>

record config =
  prog :: state
  settled :: bool

datatype event =
    CallNormalizeTag jsval
  | CallTranslateTag jsval jsval
  | CallGetAllTags jsval
  | FetchSettles "jsval option"

definition module_init :: "env \<Rightarrow> config" where
  "module_init ev = \<lparr>prog = maybeLoadTagTable ev init_state, settled = False\<rparr>"

fun step :: "env \<Rightarrow> config \<Rightarrow> event \<Rightarrow> config" where
  "step ev c (CallNormalizeTag tag) = c\<lparr>prog := snd (normalizeTag ev (prog c) tag)\<rparr>"
| "step ev c (CallTranslateTag tag lang) = c\<lparr>prog := snd (translateTag ev (prog c) tag lang)\<rparr>"
| "step ev c (CallGetAllTags lang) = c\<lparr>prog := snd (getAllTags ev (prog c) lang)\<rparr>"
| "step ev c (FetchSettles d) =
     (if browserLoadPromise (prog c) \<and> \<not> settled c
      then c\<lparr>prog := fetch_settled d (prog c), settled := True\<rparr>
      else c)"

definition run :: "env \<Rightarrow> event list \<Rightarrow> config" where
  "run ev evs = foldl (step ev) (module_init ev) evs"


section \<open>Example tables and hosts\<close>

text \<open>The table of the specification's example (with a Latin transcription for \<^verbatim>\<open>zh\<close>).\<close>

definition cat_table :: jsobj where
  "cat_table =
     [(''cat-a'', JObj [(''en'', JStr ''Cat A''), (''zh'', JStr ''Mao A''),
                        (''aliases'', JArr [JStr ''CAT_A'', JStr '' cat a ''])])]"


text \<open>A table whose only canonical key is the empty string.\<close>

definition empty_key_table :: jsobj where
  "empty_key_table =
     [([], JObj [(''en'', JStr ''Empty''), (''zh'', JStr ''Kong''),
                 (''aliases'', JArr [JStr ''x''])])]"

text \<open>A table with an array-index key written after another key.\<close>

definition year_table :: jsobj where
  "year_table =
     [(''b'', JObj [(''en'', JStr ''B''), (''zh'', JStr ''Yi'')]),
      (''1'', JObj [(''en'', JStr ''One''), (''zh'', JStr ''Yi1'')])]"

text \<open>A table with empty labels.\<close>

definition blank_table :: jsobj where
  "blank_table = [(''a'', JObj [(''en'', JStr []), (''zh'', JStr [])])]"

definition node_env :: "jsobj \<Rightarrow> env" where
  "node_env table =
     \<lparr>module_exports = True, require_tags = Some (JObj table), fetch_is_function = False\<rparr>"

definition browser_env :: env where
  "browser_env = \<lparr>module_exports = False, require_tags = None, fetch_is_function = True\<rparr>"

section \<open>The index builder and the shape check, characterised\<close>

lemma find_append_fst:
  "find P (xs @ ys) = (case find P xs of None \<Rightarrow> find P ys | Some x \<Rightarrow> Some x)"
  by (induction xs) auto

lemma aliases_loop_lookup:
  "aliases_loop c vs m f =
     (case m f of
        Some v \<Rightarrow> Some v
      | None \<Rightarrow> map_option snd (find (\<lambda>p. fst p = f) (key_candidates c vs)))"
proof (induction c vs m rule: aliases_loop.induct)
  case (1 canonical aliasMap)
  then show ?case by (simp add: key_candidates_def split: option.splits)
next
  case (2 canonical a rest aliasMap)
  then show ?case
    by (auto simp: key_candidates_def Let_def fun_upd_def split: option.splits)
qed (auto simp: key_candidates_def split: option.splits)

lemma entry_aliases_total: "entry_aliases e = Inr (entry_alias_list e)"
  by (cases e) (auto simp: entry_aliases_def entry_alias_list_def object_prototype_methods_def
       split: jsval.splits)


lemma keys_loop_lookup:
  "\<exists>am' cm'. keys_loop table ks (am, cm) = Inr (am', cm')
     \<and> (\<forall>f. am' f = (case am f of
                       Some v \<Rightarrow> Some v
                     | None \<Rightarrow> map_option snd (find (\<lambda>p. fst p = f) (alias_candidates table ks))))
     \<and> (\<forall>f. cm' f = (case find (\<lambda>c. foldTagKey c = f) (rev ks) of
                       Some c \<Rightarrow> Some c
                     | None \<Rightarrow> cm f))"
proof (induction ks arbitrary: am cm)
  case Nil
  then show ?case by (simp add: alias_candidates_def split: option.splits)
next
  case (Cons k ks)
  let ?am = "aliases_loop k (entry_alias_list (obj_get table k)) am"
  let ?cm = "cm(foldTagKey k \<mapsto> k)"
  from Cons.IH [of ?am ?cm] obtain am' cm' where
    run: "keys_loop table ks (?am, ?cm) = Inr (am', cm')"
    and am': "\<And>f. am' f = (case ?am f of
                       Some v \<Rightarrow> Some v
                     | None \<Rightarrow> map_option snd (find (\<lambda>p. fst p = f) (alias_candidates table ks)))"
    and cm': "\<And>f. cm' f = (case find (\<lambda>c. foldTagKey c = f) (rev ks) of
                       Some c \<Rightarrow> Some c
                     | None \<Rightarrow> ?cm f)"
    by blast
  have step: "keys_loop table (k # ks) (am, cm) = Inr (am', cm')"
    using run by (simp add: entry_aliases_total Let_def)
  have a: "am' f = (case am f of
                       Some v \<Rightarrow> Some v
                     | None \<Rightarrow> map_option snd (find (\<lambda>p. fst p = f) (alias_candidates table (k # ks))))" for f
    by (simp add: am' aliases_loop_lookup alias_candidates_def find_append_fst split: option.splits)
  have c: "cm' f = (case find (\<lambda>c. foldTagKey c = f) (rev (k # ks)) of
                       Some c \<Rightarrow> Some c
                     | None \<Rightarrow> cm f)" for f
    by (simp add: cm' find_append_fst split: option.splits)
  from step a c show ?case by blast
qed

lemma buildIndexes_eq:
  "buildIndexes table s =
     Inr (s\<lparr>aliasToCanonical := Some (alias_index table),
            foldedCanonicalToCanonical := Some (canonical_index table)\<rparr>)"
proof -
  from keys_loop_lookup [of table "object_keys table" Map.empty Map.empty]
  obtain am' cm' where
    run: "keys_loop table (object_keys table) (Map.empty, Map.empty) = Inr (am', cm')"
    and am': "\<And>f. am' f = map_option snd (find (\<lambda>p. fst p = f) (alias_candidates table (object_keys table)))"
    and cm': "\<And>f. cm' f = (case find (\<lambda>c. foldTagKey c = f) (rev (object_keys table)) of
                       Some c \<Rightarrow> Some c
                     | None \<Rightarrow> None)"
    by auto
  have "am' = alias_index table"
    by (rule ext) (simp add: am' alias_index_def)
  moreover have "cm' = canonical_index table"
    by (rule ext) (simp add: cm' canonical_index_def split: option.splits)
  ultimately show ?thesis
    using run by (simp add: buildIndexes_def)
qed

lemma set_object_keys: "set (object_keys kvs) = fst ` set kvs"
  by (auto simp: object_keys_def Let_def)

lemma object_keys_Nil: "(object_keys kvs = []) = (kvs = [])"
  using set_object_keys [of kvs] by (metis empty_is_image set_empty)

lemma typeof_string_iff: "(typeof v = ''string'') = is_string v"
  by (cases v) simp_all

lemma shape_loop_eq:
  "shape_loop kvs ks = Inr (list_all (\<lambda>k. entry_ok (obj_get kvs k)) ks)"
proof (induction ks)
  case Nil
  then show ?case by simp
next
  case (Cons k ks)
  then show ?case
    by (cases "obj_get kvs k")
      (auto simp: entry_ok_def isPlainObject_def Let_def object_prototype_methods_def
         typeof_string_iff split: sum.splits)
qed

lemma setTagTable_eq:
  "setTagTable table s =
     Inr (case table of
            JObj kvs \<Rightarrow> if table_ok table then install kvs s else s
          | _ \<Rightarrow> s)"
proof (cases table)
  case (JObj kvs)
  have "list_all (\<lambda>k. entry_ok (obj_get kvs k)) (object_keys kvs)
        = list_all (\<lambda>k. entry_ok (obj_get kvs k)) (map fst kvs)"
    by (simp add: list_all_iff set_object_keys)
  then show ?thesis
    using JObj
    by (simp add: setTagTable_def isPlainObject_def Let_def object_keys_Nil shape_loop_eq
        buildIndexes_eq table_ok_def install_def)
qed (simp_all add: setTagTable_def isPlainObject_def)

section \<open>States and queries, characterised\<close>

lemma maybeLoad_noop: "tagTable s \<noteq> None \<Longrightarrow> maybeLoadTagTable ev s = s"
  by (simp add: maybeLoadTagTable_def)

lemma loaded_install: "table_ok (JObj kvs) \<Longrightarrow> loaded (install kvs s) kvs"
  by (simp add: loaded_def install_def)

lemma state_inv_install: "table_ok (JObj kvs) \<Longrightarrow> state_inv (install kvs s)"
  using loaded_install [of kvs s] by (simp add: state_inv_def loaded_def)

lemma setTagTable_inv:
  "state_inv s \<Longrightarrow> setTagTable table s = Inr s' \<Longrightarrow> state_inv s'"
  by (auto simp: setTagTable_eq state_inv_install split: jsval.splits if_splits)

lemma maybeLoad_inv: "state_inv s \<Longrightarrow> state_inv (maybeLoadTagTable ev s)"
proof -
  assume inv: "state_inv s"
  have "state_inv (s\<lparr>browserLoadPromise := True\<rparr>)"
    using inv by (auto simp: state_inv_def unloaded_def loaded_def split: option.splits)
  then show ?thesis
    using inv setTagTable_inv [OF inv]
    by (auto simp: maybeLoadTagTable_def split: option.splits sum.splits)
qed


lemma normalizeTag_loaded:
  "loaded s t \<Longrightarrow>
   normalizeTag ev s (JStr x) =
     (if x = [] then [] else if foldTagKey x = [] then []
      else or_else (alias_index t (foldTagKey x)) (or_else (canonical_index t (foldTagKey x)) x), s)"
  by (simp add: normalizeTag_def maybeLoad_noop loaded_def Let_def)

lemma normalizeTag_state: "snd (normalizeTag ev s tag) = (case tag of JStr x \<Rightarrow> if x = [] then s else maybeLoadTagTable ev s | _ \<Rightarrow> s)"
  by (auto simp: normalizeTag_def Let_def split: jsval.splits option.splits)




lemma normalizedLang_eq: "normalizedLang lang = (if lang = JStr ''zh'' then ''zh'' else ''en'')"
  by (simp add: normalizedLang_def)

lemma table_ok_entry:
  "table_ok (JObj t) \<Longrightarrow> map_of t c = Some e \<Longrightarrow> entry_ok e"
proof -
  assume ok: "table_ok (JObj t)" and e: "map_of t c = Some e"
  from e have "c \<in> fst ` set t" by (metis map_of_eq_None_iff option.distinct(1))
  with ok have "entry_ok (obj_get t c)" by (auto simp: table_ok_def list_all_iff)
  with e show ?thesis by (simp add: obj_get_def)
qed

lemma get_prop_proto_label:
  "l = ''zh'' \<or> l = ''en'' \<Longrightarrow> truthy (proto_get c) \<Longrightarrow> get_prop (proto_get c) l = Inr JUndefined"
  by (auto simp: proto_get_def object_prototype_methods_def split: if_splits)

lemma translateTag_loaded:
  assumes "loaded s t"
  shows "translateTag ev s (JStr x) lang =
     (Inr (if x = [] then []
           else let c = fst (normalizeTag ev s (JStr x))
                in if c = [] then x
                   else case map_of t c of
                          None \<Rightarrow> x
                        | Some e \<Rightarrow>
                            (case entry_field e (if lang = JStr ''zh'' then ''zh'' else ''en'') of
                               JStr y \<Rightarrow> if y = [] then x else y
                             | _ \<Rightarrow> x)), s)"
proof (cases "x = []")
  case True
  then show ?thesis by (simp add: translateTag_def)
next
  case False
  let ?l = "if lang = JStr ''zh'' then ''zh'' else ''en''"
  let ?c = "fst (normalizeTag ev s (JStr x))"
  have tab: "tagTable s = Some t" and ok: "table_ok (JObj t)"
    using assms by (simp_all add: loaded_def)
  have noop: "maybeLoadTagTable ev s = s"
    using tab by (simp add: maybeLoad_noop)
  have st: "snd (normalizeTag ev s (JStr x)) = s"
    using False noop by (simp add: normalizeTag_state)
  have l: "?l = ''zh'' \<or> ?l = ''en''" by simp
  show ?thesis
  proof (cases "?c = []")
    case True
    then show ?thesis
      using False tab noop st
      by (simp add: translateTag_def Let_def case_prod_beta)
  next
    case c: False
    show ?thesis
    proof (cases "map_of t ?c")
      case None
      then have og: "obj_get t ?c = proto_get ?c" by (simp add: obj_get_def)
      show ?thesis
      proof (cases "truthy (proto_get ?c)")
        case True
        from get_prop_proto_label [OF l True] show ?thesis
          using False tab noop st c None og True
          by (simp add: translateTag_def Let_def case_prod_beta normalizedLang_eq)
      next
        case nt: False
        then show ?thesis
          using False tab noop st c None og
          by (simp add: translateTag_def Let_def case_prod_beta normalizedLang_eq)
      qed
    next
      case (Some e)
      from table_ok_entry [OF ok Some] obtain es where e: "e = JObj es"
        by (auto simp: entry_ok_def split: jsval.splits)
      have og: "obj_get t ?c = JObj es" using Some e by (simp add: obj_get_def)
      show ?thesis
        using False tab noop st c Some og e
        by (simp add: translateTag_def Let_def case_prod_beta normalizedLang_eq entry_field_def
            split: jsval.splits)
    qed
  qed
qed

lemma tags_map_ok:
  "list_all (\<lambda>k. entry_ok (obj_get t k)) ks \<Longrightarrow>
   tags_map t l ks = Inr (map (\<lambda>k. (k, entry_field (obj_get t k) l)) ks)"
  by (induction ks) (auto simp: entry_ok_def entry_field_def split: jsval.splits)

lemma table_ok_keys: "table_ok (JObj t) \<Longrightarrow> list_all (\<lambda>k. entry_ok (obj_get t k)) (object_keys t)"
  by (simp add: table_ok_def list_all_iff set_object_keys)

lemma getAllTags_loaded:
  "loaded s t \<Longrightarrow>
   getAllTags ev s lang =
     (Inr (map (\<lambda>k. (k, entry_field (obj_get t k) (if lang = JStr ''zh'' then ''zh'' else ''en'')))
            (object_keys t)), s)"
  by (simp add: getAllTags_def maybeLoad_noop loaded_def Let_def tags_map_ok table_ok_keys
      normalizedLang_eq)

lemma distinct_object_keys: "wf_obj t \<Longrightarrow> distinct (object_keys t)"
  by (auto simp: wf_obj_def object_keys_def Let_def distinct_map_filter)

lemma object_keys_insertion_order:
  "list_all (\<lambda>k. \<not> is_array_index k) (map fst t) \<Longrightarrow> object_keys t = map fst t"
  by (simp add: object_keys_def Let_def list_all_iff filter_empty_conv)

lemma unmatched_canonical: "unmatched t x \<Longrightarrow> canonical_index t (foldTagKey x) = None"
  by (auto simp: unmatched_def canonical_index_def find_None_iff list_all_iff)

lemma unmatched_alias: "unmatched t x \<Longrightarrow> alias_index t (foldTagKey x) = None"
proof -
  assume u: "unmatched t x"
  have "fst p \<noteq> foldTagKey x" if "p \<in> set (alias_candidates t (object_keys t))" for p
  proof -
    from that obtain c a where "c \<in> set (object_keys t)"
      and "a \<in> set (strings_of (entry_alias_list (obj_get t c)))" and "fst p = foldTagKey a"
      by (auto simp: alias_candidates_def key_candidates_def)
    with u show ?thesis by (simp add: unmatched_def list_all_iff)
  qed
  then have "find (\<lambda>p. fst p = foldTagKey x) (alias_candidates t (object_keys t)) = None"
    unfolding find_None_iff by blast
  then show ?thesis by (simp add: alias_index_def)
qed

lemma unmatched_own: "unmatched t x \<Longrightarrow> map_of t x = None"
proof (rule ccontr)
  assume u: "unmatched t x" and "map_of t x \<noteq> None"
  then have "x \<in> fst ` set t" by (simp add: map_of_eq_None_iff)
  then have "x \<in> set (object_keys t)" by (simp add: set_object_keys)
  with u show False by (auto simp: unmatched_def list_all_iff)
qed

section \<open>The life of the module, characterised\<close>









section \<open>The claims\<close>

text \<open>
  Claim C6. Table installation rejects the candidate, leaving the state as it was,
  exactly when the root is not a plain object, or it has no key, or some entry is not a
  plain object with string-typed \<^verbatim>\<open>en\<close> and \<^verbatim>\<open>zh\<close>; otherwise it installs the table
  together with both indexes. It never throws.
\<close>

theorem setTagTable_rejects_or_installs:
  "setTagTable table s =
     Inr (case table of
            JObj kvs \<Rightarrow> if table_ok table then install kvs s else s
          | _ \<Rightarrow> s)
   \<and> tagTable (install kvs' s) = Some kvs'"
  by (simp add: setTagTable_eq install_def)

text \<open>
  Claim C7. In the index builder, an alias that is not a string or whose fold is empty
  is skipped; a folded alias already in the alias index keeps its canonical key; so the
  alias index sends a folded alias to the canonical key of its first occurrence in
  iteration order (the keys in \<^verbatim>\<open>Object.keys\<close> order, the aliases of a key in array
  order), also when later keys list an alias with the same fold. The empty fold is never
  a key of the alias index.
\<close>

theorem buildIndexes_first_alias_wins:
  "aliases_loop c vs m f =
     (case m f of
        Some v \<Rightarrow> Some v
      | None \<Rightarrow> map_option snd (find (\<lambda>p. fst p = f) (key_candidates c vs)))
   \<and> buildIndexes table s =
       Inr (s\<lparr>aliasToCanonical := Some (alias_index table),
              foldedCanonicalToCanonical := Some (canonical_index table)\<rparr>)
   \<and> alias_index table f =
       map_option snd (find (\<lambda>p. fst p = f) (alias_candidates table (object_keys table)))
   \<and> alias_index table [] = None"
proof -
  have "find (\<lambda>p. fst p = []) (alias_candidates table ks) = None" for ks
    by (induction ks) (auto simp: alias_candidates_def key_candidates_def find_None_iff)
  then show ?thesis
    by (simp add: aliases_loop_lookup buildIndexes_eq alias_index_def)
qed

lemma maybeLoad_idem: "maybeLoadTagTable ev (maybeLoadTagTable ev s) = maybeLoadTagTable ev s"
proof (cases "tagTable (maybeLoadTagTable ev s)")
  case (Some t)
  then show ?thesis by (simp add: maybeLoad_noop)
next
  case None
  then show ?thesis
    by (auto simp: maybeLoadTagTable_def setTagTable_eq install_def
        split: option.splits jsval.splits if_splits)
qed

lemma truthy_get_prop: "truthy v \<Longrightarrow> \<exists>r. get_prop v k = Inr r"
  by (cases v) simp_all

lemma translateTag_no_error: "\<exists>r. fst (translateTag ev s tag lang) = Inr r"
proof (cases tag)
  case (JStr x)
  show ?thesis
  proof (cases "tagTable (maybeLoadTagTable ev s)")
    case None
    then show ?thesis using JStr by (simp add: translateTag_def Let_def)
  next
    case (Some table)
    let ?n = "normalizeTag ev (maybeLoadTagTable ev s) (JStr x)"
    let ?entry = "if fst ?n \<noteq> [] then obj_get table (fst ?n) else JStr (fst ?n)"
    show ?thesis
    proof (cases "truthy ?entry")
      case True
      from truthy_get_prop [OF True, of "normalizedLang lang"] obtain r
        where "get_prop ?entry (normalizedLang lang) = Inr r" by blast
      then show ?thesis
        using JStr Some True
        by (cases r) (simp_all add: translateTag_def Let_def case_prod_beta)
    next
      case False
      then show ?thesis
        using JStr Some by (simp add: translateTag_def Let_def case_prod_beta)
    qed
  qed
qed (simp_all add: translateTag_def)

lemma getAllTags_no_error:
  assumes "state_inv s"
  shows "\<exists>r. fst (getAllTags ev s lang) = Inr r"
proof (cases "tagTable (maybeLoadTagTable ev s)")
  case None
  then show ?thesis by (simp add: getAllTags_def Let_def)
next
  case (Some t)
  have "state_inv (maybeLoadTagTable ev s)" using assms by (rule maybeLoad_inv)
  with Some have "table_ok (JObj t)" by (simp add: state_inv_def loaded_def)
  then show ?thesis
    using Some by (simp add: getAllTags_def Let_def tags_map_ok table_ok_keys)
qed

lemma cat_table_ok: "table_ok (JObj cat_table)"
  by (simp add: table_ok_def cat_table_def entry_ok_def obj_get_def)

lemma blank_table_ok: "table_ok (JObj blank_table)"
  by (simp add: table_ok_def blank_table_def entry_ok_def obj_get_def)

lemma year_table_ok: "table_ok (JObj year_table)"
  by (simp add: table_ok_def year_table_def entry_ok_def obj_get_def)

lemma node_init: "table_ok (JObj t) \<Longrightarrow> prog (module_init (node_env t)) = install t init_state"
  by (simp add: module_init_def maybeLoadTagTable_def node_env_def setTagTable_eq init_state_def)




text \<open>
  Claim C5, as amended. In a table that passed the shape check and was installed, every
  entry is a plain object whose \<^verbatim>\<open>en\<close> and \<^verbatim>\<open>zh\<close> are strings; the check does not look
  at their length.
\<close>

theorem installed_labels_are_strings:
  assumes "tagTable s = None" and "setTagTable table s = Inr s'" and "tagTable s' = Some kvs"
    and "k \<in> set (object_keys kvs)"
  shows "\<exists>es en zh. obj_get kvs k = JObj es \<and> obj_get es ''en'' = JStr en
           \<and> obj_get es ''zh'' = JStr zh"
proof -
  from assms(1-3) have ok: "table_ok (JObj kvs)"
    by (auto simp: setTagTable_eq install_def split: jsval.splits if_splits)
  with assms(4) have "entry_ok (obj_get kvs k)"
    using table_ok_keys [OF ok] by (simp add: list_all_iff)
  then obtain es where es: "obj_get kvs k = JObj es"
    and "is_string (obj_get es ''en'')" and "is_string (obj_get es ''zh'')"
    by (auto simp: entry_ok_def split: jsval.splits)
  then show ?thesis
    by (cases "obj_get es ''en''"; cases "obj_get es ''zh''") simp_all
qed

theorem installed_labels_are_strings_witness:
  "tagTable init_state = None
   \<and> setTagTable (JObj cat_table) init_state = Inr (install cat_table init_state)
   \<and> tagTable (install cat_table init_state) = Some cat_table
   \<and> ''cat-a'' \<in> set (object_keys cat_table)
   \<and> (\<exists>es en zh. obj_get cat_table ''cat-a'' = JObj es \<and> obj_get es ''en'' = JStr en
           \<and> obj_get es ''zh'' = JStr zh)"
proof -
  have a: "tagTable init_state = None" by (simp add: init_state_def)
  have b: "setTagTable (JObj cat_table) init_state = Inr (install cat_table init_state)"
    by (simp add: setTagTable_eq cat_table_ok)
  have c: "tagTable (install cat_table init_state) = Some cat_table"
    by (simp add: install_def)
  have d: "''cat-a'' \<in> set (object_keys cat_table)"
    by (simp add: set_object_keys cat_table_def)
  from installed_labels_are_strings [OF a b c d] a b c d show ?thesis by blast
qed

theorem empty_labels_pass_the_shape_check:
  "setTagTable (JObj blank_table) init_state = Inr (install blank_table init_state)
   \<and> tagTable (install blank_table init_state) = Some blank_table
   \<and> obj_get blank_table ''a'' = JObj [(''en'', JStr []), (''zh'', JStr [])]
   \<and> obj_get [(''en'', JStr []), (''zh'', JStr [])] ''en'' = JStr []
   \<and> obj_get [(''en'', JStr []), (''zh'', JStr [])] ''zh'' = JStr []"
  by (simp add: setTagTable_eq blank_table_ok install_def) (simp add: blank_table_def obj_get_def)

lemma year_table_keys: "object_keys year_table = [''1'', ''b'']"
  by (simp add: object_keys_def year_table_def is_array_index_def is_digit_def index_value_def)

lemma cat_table_keys: "object_keys cat_table = [''cat-a'']"
  by (simp add: object_keys_def cat_table_def is_array_index_def is_digit_def)

text \<open>
  Claim C4, as amended. \<open>getAllTags\<close> gives the empty sequence when no table is loaded
  after its load attempt. With a table loaded it gives one pair per canonical key, in
  \<^verbatim>\<open>Object.keys\<close> order: the keys that are array indices first, in ascending numeric
  order, then the other keys in insertion order, which is the insertion order of the
  table when no key is an array index. The label is the entry's field for the resolved
  language, with no fallback.
\<close>

theorem getAllTags_lists_own_keys:
  "(tagTable (maybeLoadTagTable ev s) = None \<longrightarrow> fst (getAllTags ev s lang) = Inr [])
   \<and> (loaded (maybeLoadTagTable ev s) t \<longrightarrow>
        fst (getAllTags ev s lang) =
          Inr (map (\<lambda>k. (k, entry_field (obj_get t k) (if lang = JStr ''zh'' then ''zh'' else ''en'')))
                 (object_keys t))
        \<and> set (object_keys t) = fst ` set t
        \<and> (wf_obj t \<longrightarrow> distinct (object_keys t))
        \<and> (list_all (\<lambda>k. \<not> is_array_index k) (map fst t) \<longrightarrow> object_keys t = map fst t))"
proof -
  have "fst (getAllTags ev s lang) =
          Inr (map (\<lambda>k. (k, entry_field (obj_get t k) (if lang = JStr ''zh'' then ''zh'' else ''en'')))
                 (object_keys t))"
    if "loaded (maybeLoadTagTable ev s) t"
    using that
    by (simp add: getAllTags_def loaded_def Let_def tags_map_ok table_ok_keys normalizedLang_eq)
  then show ?thesis
    by (simp add: getAllTags_def Let_def set_object_keys distinct_object_keys
        object_keys_insertion_order)
qed

theorem getAllTags_lists_own_keys_witness:
  "tagTable (maybeLoadTagTable browser_env init_state) = None
   \<and> fst (getAllTags browser_env init_state JUndefined) = Inr []
   \<and> loaded (maybeLoadTagTable (node_env cat_table) init_state) cat_table
   \<and> wf_obj cat_table
   \<and> list_all (\<lambda>k. \<not> is_array_index k) (map fst cat_table)
   \<and> fst (getAllTags (node_env cat_table) init_state (JStr ''en'')) = Inr [(''cat-a'', JStr ''Cat A'')]
   \<and> distinct (object_keys cat_table)
   \<and> object_keys cat_table = map fst cat_table"
proof -
  have a: "tagTable (maybeLoadTagTable browser_env init_state) = None"
    by (simp add: maybeLoadTagTable_def browser_env_def init_state_def)
  have "maybeLoadTagTable (node_env cat_table) init_state = install cat_table init_state"
    using node_init [OF cat_table_ok] by (simp add: module_init_def)
  then have b: "loaded (maybeLoadTagTable (node_env cat_table) init_state) cat_table"
    by (simp add: loaded_install cat_table_ok)
  have c: "wf_obj cat_table" by (simp add: wf_obj_def cat_table_def)
  have d: "list_all (\<lambda>k. \<not> is_array_index k) (map fst cat_table)"
    by (simp add: cat_table_def is_array_index_def is_digit_def)
  have e: "map (\<lambda>k. (k, entry_field (obj_get cat_table k)
                         (if JStr ''en'' = JStr ''zh'' then ''zh'' else ''en'')))
             (object_keys cat_table) = [(''cat-a'', JStr ''Cat A'')]"
    by (simp add: cat_table_keys) (simp add: cat_table_def obj_get_def entry_field_def)
  have f: "fst (getAllTags browser_env init_state JUndefined) = Inr []"
    using getAllTags_lists_own_keys [of browser_env init_state JUndefined cat_table] a by blast
  have g: "fst (getAllTags (node_env cat_table) init_state (JStr ''en''))
             = Inr (map (\<lambda>k. (k, entry_field (obj_get cat_table k)
                                   (if JStr ''en'' = JStr ''zh'' then ''zh'' else ''en'')))
                      (object_keys cat_table))
           \<and> distinct (object_keys cat_table)
           \<and> object_keys cat_table = map fst cat_table"
    using getAllTags_lists_own_keys [of "node_env cat_table" init_state "JStr ''en''" cat_table]
      b c d by blast
  from a b c d f g show ?thesis unfolding e by blast
qed

theorem getAllTags_array_index_keys_first:
  "loaded (install year_table init_state) year_table
   \<and> map fst year_table = [''b'', ''1'']
   \<and> fst (getAllTags (node_env year_table) (install year_table init_state) (JStr ''en''))
       = Inr [(''1'', JStr ''One''), (''b'', JStr ''B'')]"
proof -
  have l: "loaded (install year_table init_state) year_table"
    by (simp add: loaded_install year_table_ok)
  have e: "map (\<lambda>k. (k, entry_field (obj_get year_table k)
                         (if JStr ''en'' = JStr ''zh'' then ''zh'' else ''en'')))
             (object_keys year_table) = [(''1'', JStr ''One''), (''b'', JStr ''B'')]"
    by (simp add: year_table_keys) (simp add: year_table_def obj_get_def entry_field_def)
  have "map fst year_table = [''b'', ''1'']" by (simp add: year_table_def)
  with l e show ?thesis by (simp add: getAllTags_loaded [OF l])
qed

lemma foldTagKey_Nil: "foldTagKey [] = []"
  by (simp add: foldTagKey_def trim_def toLowerCase_def)

lemma fold_examples:
  "foldTagKey ''a'' = ''a''" "foldTagKey ''b'' = ''b''" "foldTagKey ''x'' = ''x''"
  "foldTagKey '' '' = []" "foldTagKey ''cat-a'' = ''cat-a''" "foldTagKey '' Cat-A '' = ''cat-a''"
  "foldTagKey ''CAT_A'' = ''cat_a''" "foldTagKey '' cat a '' = ''cat a''"
  by code_simp+


lemma empty_key_table_ok: "table_ok (JObj empty_key_table)"
  by (simp add: table_ok_def empty_key_table_def entry_ok_def obj_get_def)


lemma empty_key_table_keys: "object_keys empty_key_table = [[]]"
  by (simp add: object_keys_def empty_key_table_def is_array_index_def)


lemma empty_key_alias_x: "alias_index empty_key_table ''x'' = Some []"
  by (simp add: alias_index_def alias_candidates_def empty_key_table_keys)
    (simp add: empty_key_table_def obj_get_def entry_alias_list_def key_candidates_def fold_examples)

lemma empty_key_canonical_x: "canonical_index empty_key_table ''x'' = None"
  by (simp add: canonical_index_def empty_key_table_keys foldTagKey_Nil)

lemma cat_alias_key: "alias_index cat_table ''cat-a'' = None"
  by (simp add: alias_index_def alias_candidates_def cat_table_keys)
    (simp add: cat_table_def obj_get_def entry_alias_list_def key_candidates_def fold_examples)

lemma cat_canonical_key: "canonical_index cat_table ''cat-a'' = Some ''cat-a''"
  by (simp add: canonical_index_def cat_table_keys fold_examples)

lemma cat_unmatched_blank: "unmatched cat_table '' ''"
  by (simp add: unmatched_def cat_table_keys fold_examples)
    (simp add: cat_table_def obj_get_def entry_alias_list_def fold_examples)


lemma or_else_nonempty:
  "or_else (am f) (or_else (cm f) x) =
     (case nonempty_match am f of
        Some v \<Rightarrow> v
      | None \<Rightarrow> (case nonempty_match cm f of Some v \<Rightarrow> v | None \<Rightarrow> x))"
  by (simp add: or_else_def nonempty_match_def split: option.splits)

lemma normalizeTag_after_load:
  "normalizeTag ev s (JStr x) =
     (if x = [] then ([], s) else normalizeTag ev (maybeLoadTagTable ev s) (JStr x))"
  by (simp add: normalizeTag_def maybeLoad_idem)

lemma translateTag_after_load:
  "translateTag ev s (JStr x) lang =
     (if x = [] then (Inr [], s) else translateTag ev (maybeLoadTagTable ev s) (JStr x) lang)"
  by (simp add: translateTag_def maybeLoad_idem)




text \<open>
  Claim C2, as amended. \<open>normalizeTag\<close> returns the empty string for a tag that is not a
  non-empty string, without a load attempt. Otherwise it attempts a load; if an index
  is unavailable it returns the input; if the fold of the input is empty it returns the
  empty string; otherwise it returns the alias-index match when that is a non-empty
  string, else the fold-index match when that is a non-empty string, else the input.
\<close>

theorem normalizeTag_by_cases:
  "(\<not> is_string tag \<or> tag = JStr [] \<longrightarrow> normalizeTag ev s tag = ([], s))
   \<and> (x \<noteq> [] \<and> (aliasToCanonical (maybeLoadTagTable ev s) = None
                  \<or> foldedCanonicalToCanonical (maybeLoadTagTable ev s) = None) \<longrightarrow>
        normalizeTag ev s (JStr x) = (x, maybeLoadTagTable ev s))
   \<and> (x \<noteq> [] \<and> aliasToCanonical (maybeLoadTagTable ev s) = Some am
        \<and> foldedCanonicalToCanonical (maybeLoadTagTable ev s) = Some cm \<longrightarrow>
        normalizeTag ev s (JStr x) =
          (if foldTagKey x = [] then []
           else case nonempty_match am (foldTagKey x) of
                  Some v \<Rightarrow> v
                | None \<Rightarrow> (case nonempty_match cm (foldTagKey x) of Some v \<Rightarrow> v | None \<Rightarrow> x),
           maybeLoadTagTable ev s))"
proof -
  have a: "normalizeTag ev s tag = ([], s)" if "\<not> is_string tag \<or> tag = JStr []"
    using that by (cases tag) (simp_all add: normalizeTag_def)
  have b: "normalizeTag ev s (JStr x) = (x, maybeLoadTagTable ev s)"
    if "x \<noteq> []" and "aliasToCanonical (maybeLoadTagTable ev s) = None
                  \<or> foldedCanonicalToCanonical (maybeLoadTagTable ev s) = None"
    using that by (auto simp: normalizeTag_def Let_def split: option.splits)
  have c: "normalizeTag ev s (JStr x) =
          (if foldTagKey x = [] then []
           else case nonempty_match am (foldTagKey x) of
                  Some v \<Rightarrow> v
                | None \<Rightarrow> (case nonempty_match cm (foldTagKey x) of Some v \<Rightarrow> v | None \<Rightarrow> x),
           maybeLoadTagTable ev s)"
    if "x \<noteq> []" and "aliasToCanonical (maybeLoadTagTable ev s) = Some am"
      and "foldedCanonicalToCanonical (maybeLoadTagTable ev s) = Some cm"
    using that by (simp add: normalizeTag_def Let_def or_else_nonempty)
  from a b c show ?thesis by blast
qed

theorem normalizeTag_by_cases_witness:
  "\<not> is_string (JNum 7)
   \<and> normalizeTag (node_env cat_table) init_state (JNum 7) = ([], init_state)
   \<and> ''CAT_A'' \<noteq> []
   \<and> aliasToCanonical (maybeLoadTagTable browser_env init_state) = None
   \<and> normalizeTag browser_env init_state (JStr ''CAT_A'')
       = (''CAT_A'', maybeLoadTagTable browser_env init_state)
   \<and> aliasToCanonical (maybeLoadTagTable (node_env cat_table) init_state)
       = Some (alias_index cat_table)
   \<and> foldedCanonicalToCanonical (maybeLoadTagTable (node_env cat_table) init_state)
       = Some (canonical_index cat_table)
   \<and> normalizeTag (node_env cat_table) init_state (JStr ''CAT_A'')
       = (if foldTagKey ''CAT_A'' = [] then []
          else case nonempty_match (alias_index cat_table) (foldTagKey ''CAT_A'') of
                 Some v \<Rightarrow> v
               | None \<Rightarrow> (case nonempty_match (canonical_index cat_table) (foldTagKey ''CAT_A'') of
                             Some v \<Rightarrow> v | None \<Rightarrow> ''CAT_A''),
          maybeLoadTagTable (node_env cat_table) init_state)"
proof -
  have a: "\<not> is_string (JNum 7) \<or> JNum 7 = JStr []" by simp
  have a': "\<not> is_string (JNum 7)" by simp
  have b: "''CAT_A'' \<noteq> []" by simp
  have c: "aliasToCanonical (maybeLoadTagTable browser_env init_state) = None"
    by (simp add: maybeLoadTagTable_def browser_env_def init_state_def)
  have m: "maybeLoadTagTable (node_env cat_table) init_state = install cat_table init_state"
    using node_init [OF cat_table_ok] by (simp add: module_init_def)
  have d: "aliasToCanonical (maybeLoadTagTable (node_env cat_table) init_state)
       = Some (alias_index cat_table)"
    by (simp add: m install_def)
  have e: "foldedCanonicalToCanonical (maybeLoadTagTable (node_env cat_table) init_state)
       = Some (canonical_index cat_table)"
    by (simp add: m install_def)
  from normalizeTag_by_cases [of "JNum 7" "node_env cat_table" init_state "''CAT_A''"
         "alias_index cat_table" "canonical_index cat_table"]
       normalizeTag_by_cases [of "JNum 7" browser_env init_state "''CAT_A''"
         "alias_index cat_table" "canonical_index cat_table"]
       a a' b c d e
  show ?thesis by blast
qed

theorem normalizeTag_skips_empty_alias_match:
  "aliasToCanonical (install empty_key_table init_state) = Some (alias_index empty_key_table)
   \<and> foldedCanonicalToCanonical (install empty_key_table init_state)
       = Some (canonical_index empty_key_table)
   \<and> foldTagKey ''x'' \<noteq> []
   \<and> alias_index empty_key_table (foldTagKey ''x'') = Some []
   \<and> fst (normalizeTag (node_env empty_key_table) (install empty_key_table init_state)
            (JStr ''x'')) = ''x''"
proof -
  have a: "loaded (install empty_key_table init_state) empty_key_table"
    by (simp add: loaded_install empty_key_table_ok)
  show ?thesis
    by (simp add: normalizeTag_loaded [OF a] fold_examples empty_key_alias_x
        empty_key_canonical_x or_else_def)
      (simp add: install_def)
qed

text \<open>
  Claim C3, as amended. \<open>translateTag\<close> returns the empty string for a tag that is not a
  non-empty string. Otherwise it attempts a load; with no table it returns the tag. With
  a table it resolves the canonical key with \<open>normalizeTag\<close> and returns the tag when
  that key is the empty string or the table has no entry for it; otherwise it takes the
  entry's \<^verbatim>\<open>zh\<close> field when \<^verbatim>\<open>lang\<close> is the string \<^verbatim>\<open>zh\<close> and its \<^verbatim>\<open>en\<close> field
  otherwise, and returns the tag when that field is not a non-empty string, else the
  field.
\<close>

theorem translateTag_by_cases:
  "(\<not> is_string tag \<or> tag = JStr [] \<longrightarrow> translateTag ev s tag lang = (Inr [], s))
   \<and> (x \<noteq> [] \<and> tagTable (maybeLoadTagTable ev s) = None \<longrightarrow>
        translateTag ev s (JStr x) lang = (Inr x, maybeLoadTagTable ev s))
   \<and> (x \<noteq> [] \<and> loaded (maybeLoadTagTable ev s) t \<longrightarrow>
        translateTag ev s (JStr x) lang =
          (Inr (let c = fst (normalizeTag ev s (JStr x))
                in if c = [] then x
                   else case map_of t c of
                          None \<Rightarrow> x
                        | Some e \<Rightarrow>
                            (case entry_field e (if lang = JStr ''zh'' then ''zh'' else ''en'') of
                               JStr y \<Rightarrow> if y = [] then x else y
                             | _ \<Rightarrow> x)),
           maybeLoadTagTable ev s))"
proof -
  have a: "translateTag ev s tag lang = (Inr [], s)" if "\<not> is_string tag \<or> tag = JStr []"
    using that by (cases tag) (simp_all add: translateTag_def)
  have b: "translateTag ev s (JStr x) lang = (Inr x, maybeLoadTagTable ev s)"
    if "x \<noteq> []" and "tagTable (maybeLoadTagTable ev s) = None"
    using that by (simp add: translateTag_def Let_def)
  have c: "translateTag ev s (JStr x) lang =
          (Inr (let c = fst (normalizeTag ev s (JStr x))
                in if c = [] then x
                   else case map_of t c of
                          None \<Rightarrow> x
                        | Some e \<Rightarrow>
                            (case entry_field e (if lang = JStr ''zh'' then ''zh'' else ''en'') of
                               JStr y \<Rightarrow> if y = [] then x else y
                             | _ \<Rightarrow> x)),
           maybeLoadTagTable ev s)"
    if "x \<noteq> []" and l: "loaded (maybeLoadTagTable ev s) t"
  proof -
    have n: "normalizeTag ev s (JStr x) = normalizeTag ev (maybeLoadTagTable ev s) (JStr x)"
      using that(1) normalizeTag_after_load [of ev s x] by simp
    have "translateTag ev s (JStr x) lang = translateTag ev (maybeLoadTagTable ev s) (JStr x) lang"
      using that(1) translateTag_after_load [of ev s x lang] by simp
    then show ?thesis
      using that(1) by (simp add: translateTag_loaded [OF l] n)
  qed
  from a b c show ?thesis by blast
qed

theorem translateTag_by_cases_witness:
  "\<not> is_string JNull
   \<and> translateTag browser_env init_state JNull (JStr ''zh'') = (Inr [], init_state)
   \<and> ''cat-a'' \<noteq> []
   \<and> tagTable (maybeLoadTagTable browser_env init_state) = None
   \<and> translateTag browser_env init_state (JStr ''cat-a'') (JStr ''zh'')
       = (Inr ''cat-a'', maybeLoadTagTable browser_env init_state)
   \<and> loaded (maybeLoadTagTable (node_env cat_table) init_state) cat_table
   \<and> fst (translateTag (node_env cat_table) init_state (JStr ''cat-a'') (JStr ''zh''))
       = Inr (let c = fst (normalizeTag (node_env cat_table) init_state (JStr ''cat-a''))
              in if c = [] then ''cat-a''
                 else case map_of cat_table c of
                        None \<Rightarrow> ''cat-a''
                      | Some e \<Rightarrow>
                          (case entry_field e (if JStr ''zh'' = JStr ''zh'' then ''zh'' else ''en'') of
                             JStr y \<Rightarrow> if y = [] then ''cat-a'' else y
                           | _ \<Rightarrow> ''cat-a''))"
proof -
  have a: "\<not> is_string JNull \<or> JNull = JStr []" by simp
  have a': "\<not> is_string JNull" by simp
  have b: "''cat-a'' \<noteq> []" by simp
  have c: "tagTable (maybeLoadTagTable browser_env init_state) = None"
    by (simp add: maybeLoadTagTable_def browser_env_def init_state_def)
  have m: "maybeLoadTagTable (node_env cat_table) init_state = install cat_table init_state"
    using node_init [OF cat_table_ok] by (simp add: module_init_def)
  have d: "loaded (maybeLoadTagTable (node_env cat_table) init_state) cat_table"
    by (simp add: m loaded_install cat_table_ok)
  have e: "translateTag browser_env init_state JNull (JStr ''zh'') = (Inr [], init_state)
     \<and> translateTag browser_env init_state (JStr ''cat-a'') (JStr ''zh'')
       = (Inr ''cat-a'', maybeLoadTagTable browser_env init_state)"
    using translateTag_by_cases [of JNull browser_env init_state "JStr ''zh''" "''cat-a''" cat_table]
      a b c by blast
  have f: "translateTag (node_env cat_table) init_state (JStr ''cat-a'') (JStr ''zh'')
       = (Inr (let c = fst (normalizeTag (node_env cat_table) init_state (JStr ''cat-a''))
              in if c = [] then ''cat-a''
                 else case map_of cat_table c of
                        None \<Rightarrow> ''cat-a''
                      | Some e \<Rightarrow>
                          (case entry_field e (if JStr ''zh'' = JStr ''zh'' then ''zh'' else ''en'') of
                             JStr y \<Rightarrow> if y = [] then ''cat-a'' else y
                           | _ \<Rightarrow> ''cat-a'')),
          maybeLoadTagTable (node_env cat_table) init_state)"
    using translateTag_by_cases [of JNull "node_env cat_table" init_state "JStr ''zh''" "''cat-a''"
        cat_table] b d by blast
  have g: "fst (translateTag (node_env cat_table) init_state (JStr ''cat-a'') (JStr ''zh''))
       = Inr (let c = fst (normalizeTag (node_env cat_table) init_state (JStr ''cat-a''))
              in if c = [] then ''cat-a''
                 else case map_of cat_table c of
                        None \<Rightarrow> ''cat-a''
                      | Some e \<Rightarrow>
                          (case entry_field e (if JStr ''zh'' = JStr ''zh'' then ''zh'' else ''en'') of
                             JStr y \<Rightarrow> if y = [] then ''cat-a'' else y
                           | _ \<Rightarrow> ''cat-a''))"
    unfolding f by (rule fst_conv)
  from a' b c d e g show ?thesis by blast
qed

theorem translateTag_empty_canonical_key:
  "loaded (install empty_key_table init_state) empty_key_table
   \<and> fst (normalizeTag (node_env empty_key_table) (install empty_key_table init_state)
            (JStr '' '')) = []
   \<and> map_of empty_key_table [] =
        Some (JObj [(''en'', JStr ''Empty''), (''zh'', JStr ''Kong''),
                    (''aliases'', JArr [JStr ''x''])])
   \<and> entry_field (JObj [(''en'', JStr ''Empty''), (''zh'', JStr ''Kong''),
                         (''aliases'', JArr [JStr ''x''])]) ''en'' = JStr ''Empty''
   \<and> fst (translateTag (node_env empty_key_table) (install empty_key_table init_state)
            (JStr '' '') (JStr ''en'')) = Inr '' ''"
proof -
  have a: "loaded (install empty_key_table init_state) empty_key_table"
    by (simp add: loaded_install empty_key_table_ok)
  have n: "fst (normalizeTag (node_env empty_key_table) (install empty_key_table init_state)
            (JStr '' '')) = []"
    by (simp add: normalizeTag_loaded [OF a] fold_examples)
  have t: "fst (translateTag (node_env empty_key_table) (install empty_key_table init_state)
            (JStr '' '') (JStr ''en'')) = Inr '' ''"
    by (simp add: translateTag_loaded [OF a] n)
  from a n t show ?thesis
    by (simp add: empty_key_table_def entry_field_def obj_get_def)
qed

text \<open>
  Claim C8, as amended. For a loaded table and a string \<open>s\<close> that matches, by fold, no
  canonical key and no alias: \<open>translateTag\<close> returns \<open>s\<close> for every \<^verbatim>\<open>lang\<close>;
  \<open>normalizeTag\<close> returns \<open>s\<close> when \<open>s\<close> is empty or its fold is not empty, and the empty
  string when only the fold of \<open>s\<close> is empty (a string of white space).
\<close>

theorem unmatched_strings_fall_back:
  assumes "loaded s t" and "unmatched t x"
  shows "fst (translateTag ev s (JStr x) lang) = Inr x
         \<and> (x = [] \<or> foldTagKey x \<noteq> [] \<longrightarrow> fst (normalizeTag ev s (JStr x)) = x)
         \<and> (foldTagKey x = [] \<longrightarrow> fst (normalizeTag ev s (JStr x)) = [])"
proof -
  have n: "fst (normalizeTag ev s (JStr x)) = (if x = [] \<or> foldTagKey x = [] then [] else x)"
    using assms
    by (simp add: normalizeTag_loaded unmatched_alias unmatched_canonical or_else_def)
  have "fst (translateTag ev s (JStr x) lang) = Inr x"
    using assms(2) by (simp add: translateTag_loaded [OF assms(1)] n unmatched_own Let_def)
  with n show ?thesis by auto
qed

theorem unmatched_strings_fall_back_witness:
  "loaded (install cat_table init_state) cat_table
   \<and> unmatched cat_table '' ''
   \<and> fst (translateTag browser_env (install cat_table init_state) (JStr '' '') (JStr ''zh''))
       = Inr '' ''
   \<and> foldTagKey '' '' = []
   \<and> fst (normalizeTag browser_env (install cat_table init_state) (JStr '' '')) = []"
proof -
  have a: "loaded (install cat_table init_state) cat_table"
    by (simp add: loaded_install cat_table_ok)
  have f: "foldTagKey '' '' = []" by (simp add: fold_examples)
  from unmatched_strings_fall_back [OF a cat_unmatched_blank, of browser_env "JStr ''zh''"]
       a cat_unmatched_blank f
  show ?thesis by blast
qed

theorem normalizeTag_blank_unmatched_string:
  "loaded (install cat_table init_state) cat_table
   \<and> unmatched cat_table '' ''
   \<and> fst (normalizeTag (node_env cat_table) (install cat_table init_state) (JStr '' '')) = []
   \<and> '' '' \<noteq> []"
proof -
  have a: "loaded (install cat_table init_state) cat_table"
    by (simp add: loaded_install cat_table_ok)
  show ?thesis
    using a cat_unmatched_blank
    by (simp add: normalizeTag_loaded [OF a] fold_examples)
qed

lemma cat_normalize_key:
  "fst (normalizeTag (node_env cat_table) init_state (JStr ''cat-a'')) = ''cat-a''"
proof -
  have m: "maybeLoadTagTable (node_env cat_table) init_state = install cat_table init_state"
    using node_init [OF cat_table_ok] by (simp add: module_init_def)
  have l: "loaded (install cat_table init_state) cat_table"
    by (simp add: loaded_install cat_table_ok)
  show ?thesis
    by (simp add: normalizeTag_after_load [of _ init_state] m normalizeTag_loaded [OF l]
        fold_examples cat_alias_key cat_canonical_key or_else_def)
qed

text \<open>
  Claim C10. In \<open>translateTag\<close> and \<open>getAllTags\<close>, a \<^verbatim>\<open>lang\<close> that is not exactly the
  string \<^verbatim>\<open>zh\<close> (undefined, a non-string, \<^verbatim>\<open>ZH\<close>, any other string) resolves to
  \<^verbatim>\<open>en\<close>: with a table loaded, \<open>getAllTags\<close> labels every key with its entry's \<^verbatim>\<open>en\<close>
  field and \<open>translateTag\<close> reads the \<^verbatim>\<open>en\<close> field of the resolved entry, where
  the string \<^verbatim>\<open>zh\<close> reads the \<^verbatim>\<open>zh\<close> field; with no table, and for a tag that is not
  a non-empty string, the fallbacks do not depend on \<^verbatim>\<open>lang\<close>. Result and state are
  those of the call with \<^verbatim>\<open>en\<close>; \<open>translateTag\<close> throws in no state, and \<open>getAllTags\<close>
  in no state the module can be in.
\<close>

theorem lang_other_than_zh_selects_en:
  assumes "lang \<noteq> JStr ''zh''"
  shows
    "normalizedLang lang = ''en'' \<and> normalizedLang (JStr ''zh'') = ''zh''
     \<and> translateTag ev s tag lang = translateTag ev s tag (JStr ''en'')
     \<and> getAllTags ev s lang = getAllTags ev s (JStr ''en'')
     \<and> (\<exists>r. fst (translateTag ev s tag lang) = Inr r)
     \<and> (state_inv s \<longrightarrow> (\<exists>r. fst (getAllTags ev s lang) = Inr r))
     \<and> (\<not> is_string tag \<or> tag = JStr [] \<longrightarrow> fst (translateTag ev s tag lang) = Inr [])
     \<and> (tagTable (maybeLoadTagTable ev s) = None \<longrightarrow>
          fst (getAllTags ev s lang) = Inr []
          \<and> (x \<noteq> [] \<longrightarrow> fst (translateTag ev s (JStr x) lang) = Inr x))
     \<and> (loaded (maybeLoadTagTable ev s) t \<longrightarrow>
          fst (getAllTags ev s lang) =
            Inr (map (\<lambda>k. (k, entry_field (obj_get t k) ''en'')) (object_keys t))
          \<and> fst (getAllTags ev s (JStr ''zh'')) =
              Inr (map (\<lambda>k. (k, entry_field (obj_get t k) ''zh'')) (object_keys t))
          \<and> (x \<noteq> [] \<longrightarrow>
               fst (translateTag ev s (JStr x) lang) =
                 Inr (let c = fst (normalizeTag ev s (JStr x))
                      in if c = [] then x
                         else case map_of t c of
                                None \<Rightarrow> x
                              | Some e \<Rightarrow>
                                  (case entry_field e ''en'' of
                                     JStr y \<Rightarrow> if y = [] then x else y
                                   | _ \<Rightarrow> x))
               \<and> fst (translateTag ev s (JStr x) (JStr ''zh'')) =
                   Inr (let c = fst (normalizeTag ev s (JStr x))
                        in if c = [] then x
                           else case map_of t c of
                                  None \<Rightarrow> x
                                | Some e \<Rightarrow>
                                    (case entry_field e ''zh'' of
                                       JStr y \<Rightarrow> if y = [] then x else y
                                     | _ \<Rightarrow> x))))"
proof -
  have en: "normalizedLang lang = ''en''" and zh: "normalizedLang (JStr ''zh'') = ''zh''"
    using assms by (simp_all add: normalizedLang_eq)
  have l: "normalizedLang lang = normalizedLang (JStr ''en'')"
    using en by (simp add: normalizedLang_eq)
  have eq1: "translateTag ev s tag lang = translateTag ev s tag (JStr ''en'')"
    unfolding translateTag_def l ..
  have eq2: "getAllTags ev s lang = getAllTags ev s (JStr ''en'')"
    unfolding getAllTags_def l ..
  have inv: "fst (translateTag ev s tag lang) = Inr []" if "\<not> is_string tag \<or> tag = JStr []"
    using that by (cases tag) (simp_all add: translateTag_def)
  have un1: "fst (getAllTags ev s lang) = Inr []" if "tagTable (maybeLoadTagTable ev s) = None"
    using that by (simp add: getAllTags_def Let_def)
  have un2: "fst (translateTag ev s (JStr x) lang) = Inr x"
    if "tagTable (maybeLoadTagTable ev s) = None" and "x \<noteq> []"
    using that by (simp add: translateTag_def Let_def)
  have g: "fst (getAllTags ev s l') =
            Inr (map (\<lambda>k. (k, entry_field (obj_get t k) (if l' = JStr ''zh'' then ''zh'' else ''en'')))
                   (object_keys t))"
    if "loaded (maybeLoadTagTable ev s) t" for l'
    using that
    by (simp add: getAllTags_def loaded_def Let_def tags_map_ok table_ok_keys normalizedLang_eq)
  have tr: "fst (translateTag ev s (JStr x) l') =
              Inr (let c = fst (normalizeTag ev s (JStr x))
                   in if c = [] then x
                      else case map_of t c of
                             None \<Rightarrow> x
                           | Some e \<Rightarrow>
                               (case entry_field e (if l' = JStr ''zh'' then ''zh'' else ''en'') of
                                  JStr y \<Rightarrow> if y = [] then x else y
                                | _ \<Rightarrow> x))"
    if ld: "loaded (maybeLoadTagTable ev s) t" and x: "x \<noteq> []" for l'
  proof -
    have n: "normalizeTag ev s (JStr x) = normalizeTag ev (maybeLoadTagTable ev s) (JStr x)"
      using x normalizeTag_after_load [of ev s x] by simp
    have "translateTag ev s (JStr x) l' = translateTag ev (maybeLoadTagTable ev s) (JStr x) l'"
      using x translateTag_after_load [of ev s x l'] by simp
    then show ?thesis
      using x by (simp add: translateTag_loaded [OF ld] n)
  qed
  have g_en: "fst (getAllTags ev s lang) =
            Inr (map (\<lambda>k. (k, entry_field (obj_get t k) ''en'')) (object_keys t))"
    if "loaded (maybeLoadTagTable ev s) t"
    using g [OF that, of lang] assms by simp
  have g_zh: "fst (getAllTags ev s (JStr ''zh'')) =
            Inr (map (\<lambda>k. (k, entry_field (obj_get t k) ''zh'')) (object_keys t))"
    if "loaded (maybeLoadTagTable ev s) t"
    using g [OF that, of "JStr ''zh''"] by simp
  have tr_en: "fst (translateTag ev s (JStr x) lang) =
              Inr (let c = fst (normalizeTag ev s (JStr x))
                   in if c = [] then x
                      else case map_of t c of
                             None \<Rightarrow> x
                           | Some e \<Rightarrow>
                               (case entry_field e ''en'' of
                                  JStr y \<Rightarrow> if y = [] then x else y
                                | _ \<Rightarrow> x))"
    if "loaded (maybeLoadTagTable ev s) t" and "x \<noteq> []"
    using tr [OF that, of lang] assms by simp
  have tr_zh: "fst (translateTag ev s (JStr x) (JStr ''zh'')) =
              Inr (let c = fst (normalizeTag ev s (JStr x))
                   in if c = [] then x
                      else case map_of t c of
                             None \<Rightarrow> x
                           | Some e \<Rightarrow>
                               (case entry_field e ''zh'' of
                                  JStr y \<Rightarrow> if y = [] then x else y
                                | _ \<Rightarrow> x))"
    if "loaded (maybeLoadTagTable ev s) t" and "x \<noteq> []"
    using tr [OF that, of "JStr ''zh''"] by simp
  from en zh eq1 eq2 inv un1 un2 g_en g_zh tr_en tr_zh
    translateTag_no_error [of ev s tag lang] getAllTags_no_error [of s ev lang]
  show ?thesis by blast
qed

theorem lang_other_than_zh_selects_en_witness:
  "JStr ''ZH'' \<noteq> JStr ''zh'' \<and> JUndefined \<noteq> JStr ''zh'' \<and> state_inv init_state
   \<and> loaded (maybeLoadTagTable (node_env cat_table) init_state) cat_table
   \<and> normalizedLang (JStr ''ZH'') = ''en'' \<and> normalizedLang JUndefined = ''en''
   \<and> translateTag (node_env cat_table) init_state (JStr ''cat-a'') (JStr ''ZH'')
       = translateTag (node_env cat_table) init_state (JStr ''cat-a'') (JStr ''en'')
   \<and> getAllTags (node_env cat_table) init_state JUndefined
       = getAllTags (node_env cat_table) init_state (JStr ''en'')
   \<and> fst (translateTag (node_env cat_table) init_state (JStr ''cat-a'') (JStr ''ZH''))
       = Inr ''Cat A''
   \<and> fst (translateTag (node_env cat_table) init_state (JStr ''cat-a'') (JStr ''zh''))
       = Inr ''Mao A''
   \<and> fst (getAllTags (node_env cat_table) init_state JUndefined)
       = Inr [(''cat-a'', JStr ''Cat A'')]
   \<and> fst (getAllTags (node_env cat_table) init_state (JStr ''zh''))
       = Inr [(''cat-a'', JStr ''Mao A'')]"
proof -
  have a: "JStr ''ZH'' \<noteq> JStr ''zh''" by simp
  have b: "JUndefined \<noteq> JStr ''zh''" by simp
  have i: "state_inv init_state"
    by (simp add: state_inv_def init_state_def unloaded_def)
  have m: "maybeLoadTagTable (node_env cat_table) init_state = install cat_table init_state"
    using node_init [OF cat_table_ok] by (simp add: module_init_def)
  have l: "loaded (maybeLoadTagTable (node_env cat_table) init_state) cat_table"
    by (simp add: m loaded_install cat_table_ok)
  have x: "''cat-a'' \<noteq> []" by simp
  note A = lang_other_than_zh_selects_en
      [OF a, of "node_env cat_table" init_state "JStr ''cat-a''" "''cat-a''" cat_table]
  note B = lang_other_than_zh_selects_en
      [OF b, of "node_env cat_table" init_state "JStr ''cat-a''" "''cat-a''" cat_table]
  have e1: "map (\<lambda>k. (k, entry_field (obj_get cat_table k) ''en'')) (object_keys cat_table)
            = [(''cat-a'', JStr ''Cat A'')]"
    by (simp add: cat_table_keys) (simp add: cat_table_def obj_get_def entry_field_def)
  have e2: "map (\<lambda>k. (k, entry_field (obj_get cat_table k) ''zh'')) (object_keys cat_table)
            = [(''cat-a'', JStr ''Mao A'')]"
    by (simp add: cat_table_keys) (simp add: cat_table_def obj_get_def entry_field_def)
  have t1: "fst (translateTag (node_env cat_table) init_state (JStr ''cat-a'') (JStr ''ZH''))
       = Inr ''Cat A''"
  proof -
    from A l x have "fst (translateTag (node_env cat_table) init_state (JStr ''cat-a'') (JStr ''ZH'')) =
                 Inr (let c = fst (normalizeTag (node_env cat_table) init_state (JStr ''cat-a''))
                      in if c = [] then ''cat-a''
                         else case map_of cat_table c of
                                None \<Rightarrow> ''cat-a''
                              | Some e \<Rightarrow>
                                  (case entry_field e ''en'' of
                                     JStr y \<Rightarrow> if y = [] then ''cat-a'' else y
                                   | _ \<Rightarrow> ''cat-a''))"
      by blast
    then show ?thesis
      by (simp add: cat_normalize_key) (simp add: cat_table_def entry_field_def obj_get_def)
  qed
  have t2: "fst (translateTag (node_env cat_table) init_state (JStr ''cat-a'') (JStr ''zh''))
       = Inr ''Mao A''"
  proof -
    from A l x have "fst (translateTag (node_env cat_table) init_state (JStr ''cat-a'') (JStr ''zh'')) =
                 Inr (let c = fst (normalizeTag (node_env cat_table) init_state (JStr ''cat-a''))
                      in if c = [] then ''cat-a''
                         else case map_of cat_table c of
                                None \<Rightarrow> ''cat-a''
                              | Some e \<Rightarrow>
                                  (case entry_field e ''zh'' of
                                     JStr y \<Rightarrow> if y = [] then ''cat-a'' else y
                                   | _ \<Rightarrow> ''cat-a''))"
      by blast
    then show ?thesis
      by (simp add: cat_normalize_key) (simp add: cat_table_def entry_field_def obj_get_def)
  qed
  have g1: "fst (getAllTags (node_env cat_table) init_state JUndefined)
       = Inr [(''cat-a'', JStr ''Cat A'')]"
    using B l unfolding e1 by blast
  have g2: "fst (getAllTags (node_env cat_table) init_state (JStr ''zh''))
       = Inr [(''cat-a'', JStr ''Mao A'')]"
    using B l unfolding e2 by blast
  from A B a b i l t1 t2 g1 g2 show ?thesis by blast
qed

end
